theory Spec2Isabelle
  imports Complex_Main "HOL-Library.Multiset"
begin

section \<open>SAUCIE utilities: the data set, its batch sampler and the diagnostics\<close>

text \<open>
  A shallow embedding of \<^verbatim>\<open>saucie_utils.py\<close>: the class \<^verbatim>\<open>DataSet\<close> (constructor,
  \<^verbatim>\<open>save\<close>, \<^verbatim>\<open>load\<close>, \<^verbatim>\<open>_shuffle_data\<close>, \<^verbatim>\<open>next_batch\<close>) and the functions
  \<^verbatim>\<open>activation_mutual_info\<close> and \<^verbatim>\<open>rnaseq_inverse_transform\<close>.

  Conventions.
  \<^item> Python integers are \<open>int\<close>; a matrix is the list of its rows, of an arbitrary row
    type \<open>'r\<close>; a label vector is a list over \<open>'l\<close>.
  \<^item> A method that mutates \<^verbatim>\<open>self\<close> takes the object and returns the pair of its outcome
    (\<open>Inl\<close> an exception, \<open>Inr\<close> the returned value) and the object as the call leaves
    it, so that what a raising call has already written stays visible.
  \<^item> \<^verbatim>\<open>np.random.shuffle(np.arange(n))\<close> draws from the process-wide generator. The
    index vector it leaves behind is an argument \<open>shuffled_idx\<close> of the model; the
    theorems assume of it only that it is a permutation of \<open>[0..<n]\<close>.
  \<^item> Functions of numpy and scikit-learn whose code is not part of the repository are
    arguments of the model (records \<open>numpy\<close>, \<open>sklearn\<close> and \<open>preprocessing\<close> below),
    over abstract types for floating-point numbers; a library call that can raise on
    the arguments the repository gives it returns \<open>Inl\<close> the exception.
\<close>

subsection \<open>Exceptions\<close>

datatype error =
  AssertionError | AttributeError | IndexError | KeyError | ValueError | TypeError

subsection \<open>Slices and index arrays\<close>

text \<open>
  A bound of a Python slice on a sequence of length \<open>len\<close>: a negative bound counts from
  the end, and every bound is clipped to \<open>[0, len]\<close>.
\<close>

definition slice_bound :: "nat \<Rightarrow> int \<Rightarrow> nat" where
  "slice_bound len i = (if i < 0 then nat (max (i + int len) 0) else min (nat i) len)"

text \<open>\<^verbatim>\<open>xs[lo:hi]\<close>, where \<open>None\<close> is an omitted bound.\<close>

definition py_slice :: "'a list \<Rightarrow> int option \<Rightarrow> int option \<Rightarrow> 'a list" where
  "py_slice xs lo hi =
     (let n = length xs;
          a = (case lo of None \<Rightarrow> 0 | Some i \<Rightarrow> slice_bound n i);
          b = (case hi of None \<Rightarrow> n | Some j \<Rightarrow> slice_bound n j)
      in drop a (take b xs))"

text \<open>
  \<^verbatim>\<open>xs[idx]\<close> for an array \<open>idx\<close> of non-negative indices: the rows in the order of
  \<open>idx\<close>; an index past the end raises.
\<close>

definition take_idx :: "'a list \<Rightarrow> nat list \<Rightarrow> error + 'a list" where
  "take_idx xs idx =
     (if list_all (\<lambda>i. i < length xs) idx then Inr (map (\<lambda>i. xs ! i) idx)
      else Inl IndexError)"

subsection \<open>The class \<^verbatim>\<open>DataSet\<close>\<close>

text \<open>
  A value that may be Python's \<^verbatim>\<open>None\<close>: \<^verbatim>\<open>load_dataset_from_csv\<close> stores
  \<^verbatim>\<open>data_dict['_markers'] = None\<close> and leaves it so when the marker columns replace the
  data columns.
\<close>

datatype 'a py_optional = NoneValue | Value 'a

text \<open>
  The attributes of an instance. \<^verbatim>\<open>_data\<close> is always there (the constructor asserts
  it); an attribute that the constructor only copies from its keyword arguments is
  optional, \<open>None\<close> when the instance has no such attribute. \<^verbatim>\<open>_markers\<close>, when the
  instance has it, holds a list of names or \<^verbatim>\<open>None\<close>.
\<close>

record ('r, 'l, 'v, 'm) DataSet =
  labeled :: bool
  shuffle :: bool
  data :: "'r list"
  labels :: "'l list option"
  test_data :: "'r list option"
  test_labels :: "'l list option"
  colnames :: "string list option"
  markers :: "string list py_optional option"
  max_attr :: "'v option"
  min_attr :: "'v option"
  components :: "'m option"
  mean_offset :: "'v option"
  num_samples :: int
  index_in_epoch :: int
  epochs_trained :: int
  batch_number :: int

text \<open>
  The keyword arguments \<^verbatim>\<open>**data_dict\<close> of the constructor, which are also the content
  of a saved archive: one optional entry for each key the repository ever stores.
\<close>

record ('r, 'l, 'v, 'm) data_dict =
  dd_labeled :: "bool option"
  dd_shuffle :: "bool option"
  dd_data :: "'r list option"
  dd_labels :: "'l list option"
  dd_test_data :: "'r list option"
  dd_test_labels :: "'l list option"
  dd_colnames :: "string list option"
  dd_markers :: "string list py_optional option"
  dd_max :: "'v option"
  dd_min :: "'v option"
  dd_components :: "'m option"
  dd_mean_offset :: "'v option"
  dd_num_samples :: "int option"
  dd_index_in_epoch :: "int option"
  dd_epochs_trained :: "int option"
  dd_batch_number :: "int option"

text \<open>What \<^verbatim>\<open>next_batch\<close> returns: a pair when the data set is labeled, else the rows.\<close>

datatype ('r, 'l) batch = Labeled "'r list" "'l list" | Unlabeled "'r list"

text \<open>
  \<^verbatim>\<open>_shuffle_data\<close>: the rows of \<^verbatim>\<open>_data\<close>, and of \<^verbatim>\<open>_labels\<close> when labeled, reordered
  by one index vector. \<^verbatim>\<open>_data\<close> is assigned before \<^verbatim>\<open>_labels\<close> is read.
\<close>

definition shuffle_data ::
  "nat list \<Rightarrow> ('r, 'l, 'v, 'm) DataSet \<Rightarrow> (error + unit) \<times> ('r, 'l, 'v, 'm) DataSet" where
  "shuffle_data shuffled_idx self =
     (case take_idx (data self) shuffled_idx of
        Inl e \<Rightarrow> (Inl e, self)
      | Inr d \<Rightarrow>
          let self1 = self\<lparr>data := d\<rparr> in
          if labeled self1 then
            (case labels self1 of
               None \<Rightarrow> (Inl AttributeError, self1)
             | Some ls \<Rightarrow>
                 (case take_idx ls shuffled_idx of
                    Inl e \<Rightarrow> (Inl e, self1)
                  | Inr l \<Rightarrow> (Inr (), self1\<lparr>labels := Some l\<rparr>)))
          else (Inr (), self1))"

text \<open>
  \<^verbatim>\<open>self._labels[lo:hi]\<close> under \<^verbatim>\<open>if self._labeled:\<close>; \<open>Inr None\<close> when the data set is
  not labeled and the statement is skipped.
\<close>

definition labels_slice ::
  "('r, 'l, 'v, 'm) DataSet \<Rightarrow> int option \<Rightarrow> int option \<Rightarrow> error + 'l list option" where
  "labels_slice self lo hi =
     (if labeled self then
        (case labels self of
           None \<Rightarrow> Inl AttributeError
         | Some ls \<Rightarrow> Inr (Some (py_slice ls lo hi)))
      else Inr None)"

text \<open>The last three statements of \<^verbatim>\<open>next_batch\<close>, common to both branches.\<close>

definition return_batch ::
  "('r, 'l, 'v, 'm) DataSet \<Rightarrow> 'r list \<Rightarrow> 'l list option \<Rightarrow>
     (error + ('r, 'l) batch) \<times> ('r, 'l, 'v, 'm) DataSet" where
  "return_batch self data_batch labels_batch =
     (Inr (case labels_batch of
             Some l \<Rightarrow> Labeled data_batch l
           | None \<Rightarrow> Unlabeled data_batch),
      self\<lparr>batch_number := batch_number self + 1\<rparr>)"

text \<open>
  \<^verbatim>\<open>next_batch\<close>. The only check is the assertion \<^verbatim>\<open>batch_size <= self._num_samples\<close>.
  On a wrap the counters are written first, then the tail is sliced, then the rows are
  reshuffled (when \<^verbatim>\<open>_shuffle\<close> is set), then the head is sliced.
\<close>

definition next_batch ::
  "nat list \<Rightarrow> int \<Rightarrow> ('r, 'l, 'v, 'm) DataSet \<Rightarrow>
     (error + ('r, 'l) batch) \<times> ('r, 'l, 'v, 'm) DataSet" where
  "next_batch shuffled_idx batch_size self =
     (if \<not> batch_size \<le> num_samples self then (Inl AssertionError, self)
      else
        let start = index_in_epoch self in
        if start + batch_size > num_samples self then
          let self1 = self\<lparr>epochs_trained := epochs_trained self + 1, batch_number := 0\<rparr>;
              data_tail = py_slice (data self1) (Some start) None
          in
          (case labels_slice self1 (Some start) None of
             Inl e \<Rightarrow> (Inl e, self1)
           | Inr labels_tail \<Rightarrow>
               let remaining = batch_size - (num_samples self1 - start) in
               (case (if shuffle self1 then shuffle_data shuffled_idx self1
                      else (Inr (), self1)) of
                  (Inl e, self2) \<Rightarrow> (Inl e, self2)
                | (Inr _, self2) \<Rightarrow>
                    let data_batch = data_tail @ py_slice (data self2) None (Some remaining) in
                    (case labels_slice self2 None (Some remaining) of
                       Inl e \<Rightarrow> (Inl e, self2)
                     | Inr labels_head \<Rightarrow>
                         let labels_batch =
                               (case (labels_tail, labels_head) of
                                  (Some t, Some h) \<Rightarrow> Some (t @ h)
                                | _ \<Rightarrow> None)
                         in return_batch (self2\<lparr>index_in_epoch := remaining\<rparr>)
                              data_batch labels_batch)))
        else
          let data_batch = py_slice (data self) (Some start) (Some (start + batch_size)) in
          (case labels_slice self (Some start) (Some (start + batch_size)) of
             Inl e \<Rightarrow> (Inl e, self)
           | Inr labels_batch \<Rightarrow>
               return_batch (self\<lparr>index_in_epoch := start + batch_size\<rparr>)
                 data_batch labels_batch))"

text \<open>
  The constructor \<^verbatim>\<open>__init__(self, shuffle=True, labeled=True, **data_dict)\<close>. The two
  flags are assigned before \<^verbatim>\<open>self.__dict__.update(data_dict)\<close>, so an entry
  \<^verbatim>\<open>_labeled\<close> or \<^verbatim>\<open>_shuffle\<close> of the dictionary replaces them; the sample count and the
  three counters are assigned after it, so the dictionary's entries for them are lost.
\<close>

definition init ::
  "nat list \<Rightarrow> bool \<Rightarrow> bool \<Rightarrow> ('r, 'l, 'v, 'm) data_dict \<Rightarrow>
     error + ('r, 'l, 'v, 'm) DataSet" where
  "init shuffled_idx shuffle_arg labeled_arg dd =
     (case dd_data dd of
        None \<Rightarrow> Inl AssertionError
      | Some d \<Rightarrow>
          if labeled_arg \<and>
             (case dd_labels dd of None \<Rightarrow> True | Some ls \<Rightarrow> length d \<noteq> length ls)
          then Inl AssertionError
          else
            let self =
                  \<lparr> labeled = (case dd_labeled dd of Some b \<Rightarrow> b | None \<Rightarrow> labeled_arg),
                    shuffle = (case dd_shuffle dd of Some b \<Rightarrow> b | None \<Rightarrow> shuffle_arg),
                    data = d,
                    labels = dd_labels dd,
                    test_data = dd_test_data dd,
                    test_labels = dd_test_labels dd,
                    colnames = dd_colnames dd,
                    markers = dd_markers dd,
                    max_attr = dd_max dd,
                    min_attr = dd_min dd,
                    components = dd_components dd,
                    mean_offset = dd_mean_offset dd,
                    num_samples = int (length d),
                    index_in_epoch = 0,
                    epochs_trained = 0,
                    batch_number = 0 \<rparr>
            in if shuffle self then
                 (case shuffle_data shuffled_idx self of
                    (Inl e, _) \<Rightarrow> Inl e
                  | (Inr _, self') \<Rightarrow> Inr self')
               else Inr self)"

text \<open>
  \<^verbatim>\<open>save\<close> writes every attribute of the instance under its own name with
  \<^verbatim>\<open>np.savez_compressed\<close>; the model returns the content of the archive. An attribute
  that holds \<^verbatim>\<open>None\<close> is not an array of numbers or strings: numpy stores it as a
  pickled object.
\<close>

definition save :: "('r, 'l, 'v, 'm) DataSet \<Rightarrow> ('r, 'l, 'v, 'm) data_dict" where
  "save self =
     \<lparr> dd_labeled = Some (labeled self),
       dd_shuffle = Some (shuffle self),
       dd_data = Some (data self),
       dd_labels = labels self,
       dd_test_data = test_data self,
       dd_test_labels = test_labels self,
       dd_colnames = colnames self,
       dd_markers = markers self,
       dd_max = max_attr self,
       dd_min = min_attr self,
       dd_components = components self,
       dd_mean_offset = mean_offset self,
       dd_num_samples = Some (num_samples self),
       dd_index_in_epoch = Some (index_in_epoch self),
       dd_epochs_trained = Some (epochs_trained self),
       dd_batch_number = Some (batch_number self) \<rparr>"

text \<open>
  The archive has an entry that numpy had to pickle. The matrices, label vectors and
  parameter vectors are arrays of numbers, the flags and counters numbers and the name
  lists arrays of strings, all stored as they are; of the attributes the repository
  sets, only \<^verbatim>\<open>_markers\<close> can hold \<^verbatim>\<open>None\<close>.
\<close>

definition pickled :: "('r, 'l, 'v, 'm) data_dict \<Rightarrow> bool" where
  "pickled archive = (dd_markers archive = Some NoneValue)"

text \<open>
  \<^verbatim>\<open>load\<close> opens the archive with \<^verbatim>\<open>np.load(filename)\<close>, reads \<^verbatim>\<open>_labeled\<close> from it and
  calls the constructor with the whole archive as keyword arguments and \<^verbatim>\<open>shuffle\<close> at
  its default. Passing the archive as \<^verbatim>\<open>**data_dict\<close> reads every entry before the
  constructor runs, and \<^verbatim>\<open>np.load\<close>, whose \<^verbatim>\<open>allow_pickle\<close> is left at its default
  \<^verbatim>\<open>False\<close>, raises \<^verbatim>\<open>ValueError\<close> on reading a pickled entry.
\<close>

definition load ::
  "nat list \<Rightarrow> ('r, 'l, 'v, 'm) data_dict \<Rightarrow> error + ('r, 'l, 'v, 'm) DataSet" where
  "load shuffled_idx archive =
     (case dd_labeled archive of
        None \<Rightarrow> Inl KeyError
      | Some labeled_arg \<Rightarrow>
          if pickled archive then Inl ValueError
          else init shuffled_idx True labeled_arg archive)"

subsection \<open>The mutual-information diagnostic\<close>




subsection \<open>The inverse transform\<close>

text \<open>
  The array operations of numpy that \<^verbatim>\<open>rnaseq_inverse_transform\<close> uses, on a matrix
  (a list of rows), a vector \<open>'v\<close> and a matrix of components \<open>'m\<close>: \<open>np_mul\<close> and
  \<open>np_add\<close> are \<^verbatim>\<open>x * v\<close> and \<^verbatim>\<open>x + v\<close>, \<open>np_sub\<close> is \<^verbatim>\<open>v - w\<close>, \<open>np_dot\<close> is \<^verbatim>\<open>np.dot(x, m)\<close>,
  and \<open>eq_none_truth a\<close> is the truth value of \<^verbatim>\<open>a == None\<close> for an array \<open>a\<close>, which
  numpy computes elementwise and may refuse to give.
\<close>

record ('r, 'v, 'm) numpy =
  np_mul :: "'r list \<Rightarrow> 'v \<Rightarrow> 'r list"
  np_add :: "'r list \<Rightarrow> 'v \<Rightarrow> 'r list"
  np_sub :: "'v \<Rightarrow> 'v \<Rightarrow> 'v"
  np_dot :: "'r list \<Rightarrow> 'm \<Rightarrow> 'r list"
  eq_none_truth :: "'r list \<Rightarrow> error + bool"

text \<open>
  The value of the local variable \<^verbatim>\<open>x\<close> of \<^verbatim>\<open>rnaseq_inverse_transform(data, x=None)\<close>
  when the function reaches its \<^verbatim>\<open>return\<close>: the argument, or the training rows followed
  by the test rows; scaled back when \<^verbatim>\<open>_min\<close> and \<^verbatim>\<open>_max\<close> are both there; projected
  back when \<^verbatim>\<open>_components\<close> is there.
\<close>

definition inverse_transform_x ::
  "('r, 'v, 'm) numpy \<Rightarrow> ('r, 'l, 'v, 'm) DataSet \<Rightarrow> 'r list option \<Rightarrow> error + 'r list" where
  "inverse_transform_x np self x =
     (let whole = (case test_data self of
                     None \<Rightarrow> Inl AttributeError
                   | Some t \<Rightarrow> Inr (data self @ t));
          x1 = (case x of
                  None \<Rightarrow> whole
                | Some a \<Rightarrow>
                    (case eq_none_truth np a of
                       Inl e \<Rightarrow> Inl e
                     | Inr b \<Rightarrow> if b then whole else Inr a))
      in case x1 of
           Inl e \<Rightarrow> Inl e
         | Inr x1 \<Rightarrow>
             let x2 = (case (min_attr self, max_attr self) of
                         (Some mn, Some mx) \<Rightarrow> np_add np (np_mul np x1 (np_sub np mx mn)) mn
                       | _ \<Rightarrow> x1)
             in (case components self of
                   None \<Rightarrow> Inr x2
                 | Some c \<Rightarrow>
                     (case mean_offset self of
                        None \<Rightarrow> Inl AttributeError
                      | Some m \<Rightarrow> Inr (np_add np (np_dot np x2 c) m))))"

text \<open>
  \<^verbatim>\<open>rnaseq_inverse_transform\<close> itself: its last statement is \<^verbatim>\<open>return data\<close>, the data
  set it was given.
\<close>

definition rnaseq_inverse_transform ::
  "('r, 'v, 'm) numpy \<Rightarrow> ('r, 'l, 'v, 'm) DataSet \<Rightarrow> 'r list option \<Rightarrow>
     error + ('r, 'l, 'v, 'm) DataSet" where
  "rnaseq_inverse_transform np self x =
     (case inverse_transform_x np self x of
        Inl e \<Rightarrow> Inl e
      | Inr x3 \<Rightarrow> Inr self)"

subsection \<open>The normalization of the bounded-count data sets\<close>





subsection \<open>Notions used to state the properties\<close>

text \<open>
  The invariant the constructor establishes and every method keeps: the sample count is
  the number of rows, and a labeled data set has one label for each row.
\<close>

definition sampler_ok :: "('r, 'l, 'v, 'm) DataSet \<Rightarrow> bool" where
  "sampler_ok self =
     (num_samples self = int (length (data self)) \<and>
      (\<not> labeled self \<or>
         (case labels self of None \<Rightarrow> False | Some ls \<Rightarrow> length ls = length (data self))))"

text \<open>The label vector of a data set, empty when there is none.\<close>

definition label_rows :: "('r, 'l, 'v, 'm) DataSet \<Rightarrow> 'l list" where
  "label_rows self = (case labels self of None \<Rightarrow> [] | Some ls \<Rightarrow> ls)"

text \<open>
  The data set whose rows, and labels when labeled, are those of \<open>self\<close> in the order of
  one index vector: what the specification asks of a shuffle.
\<close>

definition permuted ::
  "nat list \<Rightarrow> ('r, 'l, 'v, 'm) DataSet \<Rightarrow> ('r, 'l, 'v, 'm) DataSet" where
  "permuted idx self =
     self\<lparr> data := map (\<lambda>i. data self ! i) idx,
           labels := (if labeled self
                      then map_option (\<lambda>ls. map (\<lambda>i. ls ! i) idx) (labels self)
                      else labels self) \<rparr>"

fun batch_rows :: "('r, 'l) batch \<Rightarrow> 'r list" where
  "batch_rows (Labeled d l) = d"
| "batch_rows (Unlabeled d) = d"

fun batch_labels :: "('r, 'l) batch \<Rightarrow> 'l list option" where
  "batch_labels (Labeled d l) = Some l"
| "batch_labels (Unlabeled d) = None"

text \<open>
  A caller's loop \<^verbatim>\<open>for idx in idxs: results.append(ds.next_batch(batch_size))\<close>: one
  call for each index vector of the list, the outcomes in call order.
\<close>

fun next_batches ::
  "nat list list \<Rightarrow> int \<Rightarrow> ('r, 'l, 'v, 'm) DataSet \<Rightarrow>
     (error + ('r, 'l) batch) list \<times> ('r, 'l, 'v, 'm) DataSet" where
  "next_batches [] batch_size self = ([], self)"
| "next_batches (idx # idxs) batch_size self =
     (case next_batch idx batch_size self of
        (r, self1) \<Rightarrow>
          (case next_batches idxs batch_size self1 of
             (rs, self2) \<Rightarrow> (r # rs, self2)))"

text \<open>The rows of the training matrix, each with its label.\<close>

definition pairs :: "('r, 'l, 'v, 'm) DataSet \<Rightarrow> ('r \<times> 'l) list" where
  "pairs self = zip (data self) (label_rows self)"

text \<open>
  The rows, and the labels, that a sequence of outcomes returned, in call order; a
  failed call contributes none.
\<close>

definition rows_of :: "(error + ('r, 'l) batch) list \<Rightarrow> 'r list" where
  "rows_of rs = concat (map (\<lambda>r. case r of Inl e \<Rightarrow> [] | Inr b \<Rightarrow> batch_rows b) rs)"

definition labels_of :: "(error + ('r, 'l) batch) list \<Rightarrow> 'l list" where
  "labels_of rs =
     concat (map (\<lambda>r. case r of
                         Inl e \<Rightarrow> []
                       | Inr b \<Rightarrow> (case batch_labels b of None \<Rightarrow> [] | Some l \<Rightarrow> l)) rs)"

text \<open>
  Evaluation inputs: the keyword arguments and the instance of an unlabeled data set
  over integer rows, as the constructor builds it with \<^verbatim>\<open>shuffle=False\<close>.
\<close>

definition rows_dict :: "int list \<Rightarrow> (int, int, unit, unit) data_dict" where
  "rows_dict rows =
     \<lparr> dd_labeled = None, dd_shuffle = None, dd_data = Some rows, dd_labels = None,
       dd_test_data = None, dd_test_labels = None, dd_colnames = None, dd_markers = None,
       dd_max = None, dd_min = None, dd_components = None, dd_mean_offset = None,
       dd_num_samples = None, dd_index_in_epoch = None, dd_epochs_trained = None,
       dd_batch_number = None \<rparr>"

definition fresh :: "bool \<Rightarrow> int list \<Rightarrow> (int, int, unit, unit) DataSet" where
  "fresh shuffle_flag rows =
     \<lparr> labeled = False, shuffle = shuffle_flag, data = rows, labels = None,
       test_data = None, test_labels = None, colnames = None, markers = None,
       max_attr = None, min_attr = None, components = None, mean_offset = None,
       num_samples = int (length rows), index_in_epoch = 0, epochs_trained = 0,
       batch_number = 0 \<rparr>"

text \<open>The same for a labeled data set.\<close>

definition labeled_dict :: "int list \<Rightarrow> int list \<Rightarrow> (int, int, unit, unit) data_dict" where
  "labeled_dict rows lbls = (rows_dict rows)\<lparr>dd_labels := Some lbls\<rparr>"

definition fresh_labeled ::
  "bool \<Rightarrow> int list \<Rightarrow> int list \<Rightarrow> (int, int, unit, unit) DataSet" where
  "fresh_labeled shuffle_flag rows lbls =
     (fresh shuffle_flag rows)\<lparr>labeled := True, labels := Some lbls\<rparr>"


definition toy_numpy :: "(int list, int list, int list list) numpy" where
  "toy_numpy =
     \<lparr> np_mul = (\<lambda>x v. map (\<lambda>row. map2 (*) row v) x),
       np_add = (\<lambda>x v. map (\<lambda>row. map2 (+) row v) x),
       np_sub = (\<lambda>v w. map2 (-) v w),
       np_dot = (\<lambda>x m. map (\<lambda>row. foldr (map2 (+)) (map2 (\<lambda>a mrow. map ((*) a) mrow) row m)
                                        (replicate (length (hd m)) 0)) x),
       eq_none_truth = (\<lambda>a. if length a = 1 \<and> length (hd a) = 1 then Inr False
                             else Inl ValueError) \<rparr>"

definition family_b :: "(int list, int, int list, int list list) DataSet" where
  "family_b =
     \<lparr> labeled = False, shuffle = False, data = [[1, 2]], labels = None,
       test_data = Some [[3, 4]], test_labels = None, colnames = None, markers = None,
       max_attr = None, min_attr = None,
       components = Some [[1, 0, 1], [0, 1, 1]], mean_offset = Some [10, 20, 30],
       num_samples = 1, index_in_epoch = 0, epochs_trained = 0, batch_number = 0 \<rparr>"



section \<open>Properties\<close>

subsection \<open>Slices, index arrays and the invariant\<close>

lemma py_slice_from: "0 \<le> i \<Longrightarrow> py_slice xs (Some i) None = drop (nat i) xs"
  by (simp add: py_slice_def slice_bound_def Let_def min_def)

lemma py_slice_to: "0 \<le> r \<Longrightarrow> py_slice xs None (Some r) = take (nat r) xs"
  by (simp add: py_slice_def slice_bound_def Let_def min_def)

lemma py_slice_range:
  "0 \<le> a \<Longrightarrow> 0 \<le> b \<Longrightarrow>
   py_slice xs (Some a) (Some b) = drop (nat a) (take (nat b) xs)"
  by (simp add: py_slice_def slice_bound_def Let_def min_def)

lemma take_idx_perm:
  assumes "mset p = mset [0..<length xs]"
  shows "take_idx xs p = Inr (map (\<lambda>i. xs ! i) p)"
proof -
  have "set p = set [0..<length xs]" using assms by (rule mset_eq_setD)
  then show ?thesis by (auto simp: take_idx_def list_all_iff)
qed

lemma length_perm: "mset p = mset [0..<n] \<Longrightarrow> length p = n"
  by (metis length_upt mset_eq_length minus_nat.diff_0)

lemma sampler_ok_counters [simp]:
  "sampler_ok (ds\<lparr>epochs_trained := e\<rparr>) = sampler_ok ds"
  "sampler_ok (ds\<lparr>batch_number := b\<rparr>) = sampler_ok ds"
  "sampler_ok (ds\<lparr>index_in_epoch := i\<rparr>) = sampler_ok ds"
  by (simp_all add: sampler_ok_def split: option.splits)

lemma permuted_counters [simp]:
  "permuted p (ds\<lparr>epochs_trained := e\<rparr>) = (permuted p ds)\<lparr>epochs_trained := e\<rparr>"
  "permuted p (ds\<lparr>batch_number := b\<rparr>) = (permuted p ds)\<lparr>batch_number := b\<rparr>"
  "permuted p (ds\<lparr>index_in_epoch := i\<rparr>) = (permuted p ds)\<lparr>index_in_epoch := i\<rparr>"
  by (simp_all add: permuted_def)

lemma permuted_fields [simp]:
  "labeled (permuted p ds) = labeled ds"
  "shuffle (permuted p ds) = shuffle ds"
  "num_samples (permuted p ds) = num_samples ds"
  "index_in_epoch (permuted p ds) = index_in_epoch ds"
  "epochs_trained (permuted p ds) = epochs_trained ds"
  "batch_number (permuted p ds) = batch_number ds"
  "data (permuted p ds) = map (\<lambda>i. data ds ! i) p"
  by (simp_all add: permuted_def)

lemma sampler_ok_permuted:
  "sampler_ok ds \<Longrightarrow> mset p = mset [0..<length (data ds)] \<Longrightarrow> sampler_ok (permuted p ds)"
  by (auto simp: sampler_ok_def permuted_def length_perm split: option.splits)

lemma shuffle_data_ok:
  assumes "sampler_ok ds" "mset p = mset [0..<length (data ds)]"
  shows "shuffle_data p ds = (Inr (), permuted p ds)"
proof (cases "labeled ds")
  case False
  then show ?thesis
    using assms by (simp add: shuffle_data_def permuted_def take_idx_perm)
next
  case True
  then obtain ls where ls: "labels ds = Some ls" "length ls = length (data ds)"
    using assms(1) by (auto simp: sampler_ok_def split: option.splits)
  then have "take_idx ls p = Inr (map (\<lambda>i. ls ! i) p)"
    using assms(2) by (simp add: take_idx_perm)
  then show ?thesis
    using True ls assms(2) by (simp add: shuffle_data_def permuted_def take_idx_perm)
qed

subsection \<open>The two branches of \<^verbatim>\<open>next_batch\<close>\<close>

lemma next_batch_wrap_eq:
  assumes ok: "sampler_ok ds"
    and perm: "shuffle ds \<Longrightarrow> mset p = mset [0..<length (data ds)]"
    and idx: "0 \<le> index_in_epoch ds"
    and bs: "batch_size \<le> num_samples ds"
    and wrap: "index_in_epoch ds + batch_size > num_samples ds"
  shows "next_batch p batch_size ds =
           (let remaining = batch_size - (num_samples ds - index_in_epoch ds);
                ds2 = (if shuffle ds then permuted p ds else ds)
            in (Inr (if labeled ds
                     then Labeled (drop (nat (index_in_epoch ds)) (data ds) @
                                   take (nat remaining) (data ds2))
                                  (drop (nat (index_in_epoch ds)) (label_rows ds) @
                                   take (nat remaining) (label_rows ds2))
                     else Unlabeled (drop (nat (index_in_epoch ds)) (data ds) @
                                     take (nat remaining) (data ds2))),
                ds2\<lparr>epochs_trained := epochs_trained ds + 1, batch_number := 1,
                     index_in_epoch := remaining\<rparr>))"
proof -
  let ?self1 = "ds\<lparr>epochs_trained := epochs_trained ds + 1, batch_number := 0\<rparr>"
  let ?ds2 = "if shuffle ds then permuted p ds else ds"
  let ?r = "batch_size - (num_samples ds - index_in_epoch ds)"
  have r: "0 \<le> ?r" using wrap by simp
  have sh: "(if shuffle ?self1 then shuffle_data p ?self1 else (Inr (), ?self1)) =
            (Inr (), ?ds2\<lparr>epochs_trained := epochs_trained ds + 1, batch_number := 0\<rparr>)"
    using ok perm by (simp add: shuffle_data_ok)
  show ?thesis
  proof (cases "labeled ds")
    case False
    then show ?thesis
      using bs wrap idx r sh
      by (simp add: next_batch_def Let_def labels_slice_def return_batch_def
                    py_slice_from py_slice_to)
  next
    case True
    then obtain ls where ls: "labels ds = Some ls"
      using ok by (auto simp: sampler_ok_def split: option.splits)
    have "labeled ?ds2" using True by simp
    moreover have "sampler_ok ?ds2" using ok perm by (simp add: sampler_ok_permuted)
    ultimately obtain ls2 where ls2: "labels ?ds2 = Some ls2"
      by (auto simp: sampler_ok_def split: option.splits)
    show ?thesis
      using True bs wrap idx r sh ls ls2
      by (simp add: next_batch_def Let_def labels_slice_def return_batch_def label_rows_def
                    py_slice_from py_slice_to split: if_splits)
  qed
qed

lemma next_batch_advance_eq:
  assumes ok: "sampler_ok ds"
    and idx: "0 \<le> index_in_epoch ds"
    and bs: "0 \<le> batch_size"
    and fit: "index_in_epoch ds + batch_size \<le> num_samples ds"
  shows "next_batch p batch_size ds =
           (let start = nat (index_in_epoch ds); stop = nat (index_in_epoch ds + batch_size)
            in (Inr (if labeled ds
                     then Labeled (drop start (take stop (data ds)))
                                  (drop start (take stop (label_rows ds)))
                     else Unlabeled (drop start (take stop (data ds)))),
                ds\<lparr>index_in_epoch := index_in_epoch ds + batch_size,
                    batch_number := batch_number ds + 1\<rparr>))"
proof -
  have le: "batch_size \<le> num_samples ds" using idx fit by simp
  have stop: "0 \<le> index_in_epoch ds + batch_size" using idx bs by simp
  show ?thesis
  proof (cases "labeled ds")
    case False
    then show ?thesis
      using le fit idx stop
      by (simp add: next_batch_def Let_def labels_slice_def return_batch_def py_slice_range)
  next
    case True
    then obtain ls where ls: "labels ds = Some ls"
      using ok by (auto simp: sampler_ok_def split: option.splits)
    show ?thesis
      using True le fit idx stop ls
      by (simp add: next_batch_def Let_def labels_slice_def return_batch_def label_rows_def
                    py_slice_range)
  qed
qed

subsection \<open>Wraparound\<close>

text \<open>
  Claim C1. In a state where the sample count is the number of rows and the index lies in
  \<open>[0, n_train]\<close>, a call with \<open>0 < batch_size \<le> n_train\<close> that overruns the epoch
  (\<open>index_in_epoch + batch_size > n_train\<close>) returns the tail rows
  \<open>[index_in_epoch, n_train)\<close> of the matrix as it was before the call followed by the
  head rows \<open>[0, remaining)\<close> of the matrix after the reshuffle (the same matrix when
  \<open>shuffle\<close> is off), with \<open>remaining = batch_size - (n_train - index_in_epoch)\<close>; the
  labels, when there are any, are cut the same way. The call adds one to
  \<open>epochs_trained\<close>, leaves \<open>batch_number\<close> at 1 and \<open>index_in_epoch\<close> at \<open>remaining\<close>,
  and the batch has exactly \<open>batch_size\<close> rows. The witness is the example of the
  specification: ten rows, batches of four, no shuffle, three calls from the state the
  constructor builds.
\<close>

theorem next_batch_wraparound:
  assumes "sampler_ok ds"
    and "0 \<le> index_in_epoch ds" and "index_in_epoch ds \<le> num_samples ds"
    and "shuffle ds \<longrightarrow> mset p = mset [0..<length (data ds)]"
    and "0 < batch_size" and "batch_size \<le> num_samples ds"
    and "index_in_epoch ds + batch_size > num_samples ds"
  shows "let start = nat (index_in_epoch ds);
             remaining = batch_size - (num_samples ds - index_in_epoch ds);
             ds2 = (if shuffle ds then permuted p ds else ds);
             rows = drop start (data ds) @ take (nat remaining) (data ds2);
             lbls = drop start (label_rows ds) @ take (nat remaining) (label_rows ds2)
         in next_batch p batch_size ds =
              (Inr (if labeled ds then Labeled rows lbls else Unlabeled rows),
               ds2\<lparr>epochs_trained := epochs_trained ds + 1, batch_number := 1,
                    index_in_epoch := remaining\<rparr>) \<and>
            int (length rows) = batch_size \<and>
            (labeled ds \<longrightarrow> int (length lbls) = batch_size)"
proof -
  let ?ds2 = "if shuffle ds then permuted p ds else ds"
  have eq: "next_batch p batch_size ds = 
           (let remaining = batch_size - (num_samples ds - index_in_epoch ds);
                ds2 = (if shuffle ds then permuted p ds else ds)
            in (Inr (if labeled ds
                     then Labeled (drop (nat (index_in_epoch ds)) (data ds) @
                                   take (nat remaining) (data ds2))
                                  (drop (nat (index_in_epoch ds)) (label_rows ds) @
                                   take (nat remaining) (label_rows ds2))
                     else Unlabeled (drop (nat (index_in_epoch ds)) (data ds) @
                                     take (nat remaining) (data ds2))),
                ds2\<lparr>epochs_trained := epochs_trained ds + 1, batch_number := 1,
                     index_in_epoch := remaining\<rparr>))"
    using assms by (intro next_batch_wrap_eq) simp_all
  have n: "num_samples ds = int (length (data ds))"
    using assms(1) by (simp add: sampler_ok_def)
  have len2: "length (data ?ds2) = length (data ds)"
    using assms(4) by (simp add: length_perm)
  have ok2: "sampler_ok ?ds2"
    using assms(1,4) by (simp add: sampler_ok_permuted)
  have rows: "int (length (drop (nat (index_in_epoch ds)) (data ds) @
                 take (nat (batch_size - (num_samples ds - index_in_epoch ds))) (data ?ds2)))
              = batch_size"
    using assms(2,3,5,6,7) n len2 by (simp add: min_def) arith
  have lbls: "int (length (drop (nat (index_in_epoch ds)) (label_rows ds) @
                 take (nat (batch_size - (num_samples ds - index_in_epoch ds))) (label_rows ?ds2)))
              = batch_size" if "labeled ds"
  proof -
    have "length (label_rows ds) = length (data ds)"
      using that assms(1) by (auto simp: sampler_ok_def label_rows_def split: option.splits)
    moreover have "length (label_rows ?ds2) = length (data ds)"
    proof -
      have "labeled ?ds2" using that by simp
      then have "length (label_rows ?ds2) = length (data ?ds2)"
        using ok2 unfolding sampler_ok_def label_rows_def by (auto split: option.splits)
      then show ?thesis using len2 by simp
    qed
    ultimately show ?thesis
      using assms(2,3,5,6,7) n by (simp add: min_def) arith
  qed
  show ?thesis
    unfolding Let_def using eq rows lbls by (simp add: Let_def)
qed

theorem next_batch_wraparound_witness:
  "init [] False False (rows_dict [0, 1, 2, 3, 4, 5, 6, 7, 8, 9]) =
     Inr (fresh False [0, 1, 2, 3, 4, 5, 6, 7, 8, 9]) \<and>
   next_batch [] 4 (fresh False [0, 1, 2, 3, 4, 5, 6, 7, 8, 9]) =
     (Inr (Unlabeled [0, 1, 2, 3]),
      (fresh False [0, 1, 2, 3, 4, 5, 6, 7, 8, 9])\<lparr>index_in_epoch := 4, batch_number := 1\<rparr>) \<and>
   next_batch [] 4
     ((fresh False [0, 1, 2, 3, 4, 5, 6, 7, 8, 9])\<lparr>index_in_epoch := 4, batch_number := 1\<rparr>) =
     (Inr (Unlabeled [4, 5, 6, 7]),
      (fresh False [0, 1, 2, 3, 4, 5, 6, 7, 8, 9])\<lparr>index_in_epoch := 8, batch_number := 2\<rparr>) \<and>
   next_batch [] 4
     ((fresh False [0, 1, 2, 3, 4, 5, 6, 7, 8, 9])\<lparr>index_in_epoch := 8, batch_number := 2\<rparr>) =
     (Inr (Unlabeled [8, 9, 0, 1]),
      (fresh False [0, 1, 2, 3, 4, 5, 6, 7, 8, 9])
        \<lparr>index_in_epoch := 2, epochs_trained := 1, batch_number := 1\<rparr>)"
proof -
  let ?ds = "(fresh False [0, 1, 2, 3, 4, 5, 6, 7, 8, 9])\<lparr>index_in_epoch := 8, batch_number := 2\<rparr>"
  have h1: "sampler_ok ?ds" by (simp add: sampler_ok_def fresh_def)
  have h2: "0 \<le> index_in_epoch ?ds" "index_in_epoch ?ds \<le> num_samples ?ds"
    by (simp_all add: fresh_def)
  have h3: "shuffle ?ds \<longrightarrow> mset [] = mset [0..<length (data ?ds)]" by (simp add: fresh_def)
  have h4: "(0::int) < 4" "4 \<le> num_samples ?ds" "index_in_epoch ?ds + 4 > num_samples ?ds"
    by (simp_all add: fresh_def)
  note w = next_batch_wraparound [OF h1 h2 h3 h4]
  have a: "init [] False False (rows_dict [0, 1, 2, 3, 4, 5, 6, 7, 8, 9]) =
     Inr (fresh False [0, 1, 2, 3, 4, 5, 6, 7, 8, 9])"
    by (simp add: init_def rows_dict_def fresh_def)
  have b: "next_batch [] 4 (fresh False [0, 1, 2, 3, 4, 5, 6, 7, 8, 9]) =
     (Inr (Unlabeled [0, 1, 2, 3]),
      (fresh False [0, 1, 2, 3, 4, 5, 6, 7, 8, 9])\<lparr>index_in_epoch := 4, batch_number := 1\<rparr>)"
    by (simp add: next_batch_def fresh_def labels_slice_def return_batch_def py_slice_def slice_bound_def)
  have c: "next_batch [] 4
     ((fresh False [0, 1, 2, 3, 4, 5, 6, 7, 8, 9])\<lparr>index_in_epoch := 4, batch_number := 1\<rparr>) =
     (Inr (Unlabeled [4, 5, 6, 7]),
      (fresh False [0, 1, 2, 3, 4, 5, 6, 7, 8, 9])\<lparr>index_in_epoch := 8, batch_number := 2\<rparr>)"
    by (simp add: next_batch_def fresh_def labels_slice_def return_batch_def py_slice_def slice_bound_def)
  have d: "next_batch [] 4 ?ds =
     (Inr (Unlabeled [8, 9, 0, 1]),
      (fresh False [0, 1, 2, 3, 4, 5, 6, 7, 8, 9])
        \<lparr>index_in_epoch := 2, epochs_trained := 1, batch_number := 1\<rparr>)"
    using w by (simp add: fresh_def Let_def)
  show ?thesis using a b c d by simp
qed

subsection \<open>Which batch sizes are rejected\<close>

lemma labels_slice_ok:
  "sampler_ok ds \<Longrightarrow> \<exists>l. labels_slice ds lo hi = Inr l"
  by (auto simp: labels_slice_def sampler_ok_def split: option.splits)

lemma next_batch_succeeds:
  assumes ok: "sampler_ok ds"
    and perm: "shuffle ds \<longrightarrow> mset p = mset [0..<length (data ds)]"
    and bs: "batch_size \<le> num_samples ds"
  shows "\<exists>b. fst (next_batch p batch_size ds) = Inr b"
proof (cases "index_in_epoch ds + batch_size > num_samples ds")
  case False
  obtain l where "labels_slice ds (Some (index_in_epoch ds))
                    (Some (index_in_epoch ds + batch_size)) = Inr l"
    using labels_slice_ok [OF ok] by blast
  then show ?thesis
    using False bs by (simp add: next_batch_def Let_def return_batch_def)
next
  case True
  let ?self1 = "ds\<lparr>epochs_trained := epochs_trained ds + 1, batch_number := 0\<rparr>"
  let ?self2 = "(if shuffle ds then permuted p ds else ds)
                  \<lparr>epochs_trained := epochs_trained ds + 1, batch_number := 0\<rparr>"
  have ok1: "sampler_ok ?self1" using ok by simp
  have ok2: "sampler_ok ?self2" using ok perm by (simp add: sampler_ok_permuted)
  obtain t where t: "labels_slice ?self1 (Some (index_in_epoch ds)) None = Inr t"
    using labels_slice_ok [OF ok1] by blast
  obtain h where h: "labels_slice ?self2 None
                       (Some (batch_size - (num_samples ds - index_in_epoch ds))) = Inr h"
    using labels_slice_ok [OF ok2] by blast
  have sh: "(if shuffle ?self1 then shuffle_data p ?self1 else (Inr (), ?self1)) =
            (Inr (), ?self2)"
    using ok perm by (simp add: shuffle_data_ok)
  show ?thesis
    using True bs t h sh by (simp add: next_batch_def Let_def return_batch_def)
qed

lemma py_slice_empty: "py_slice xs (Some i) (Some i) = []"
  by (simp add: py_slice_def Let_def)

text \<open>
  Claim C3, as the code has it. The claim says that a batch size of zero or less is
  rejected; the only check of \<^verbatim>\<open>next_batch\<close> is \<^verbatim>\<open>assert batch_size <= self._num_samples\<close>.
  Amended: the call fails, with the assertion's error and the state untouched, when
  \<open>batch_size > n_train\<close>, and returns a batch for every \<open>batch_size \<le> n_train\<close>, zero
  and negative sizes included; a call with \<open>batch_size = 0\<close> in a state with
  \<open>index_in_epoch \<le> n_train\<close> returns an empty batch and only counts the call in
  \<open>batch_number\<close>.
\<close>

theorem next_batch_rejects_only_oversize:
  assumes "sampler_ok ds"
    and "shuffle ds \<longrightarrow> mset p = mset [0..<length (data ds)]"
  shows "(batch_size > num_samples ds \<longrightarrow>
            next_batch p batch_size ds = (Inl AssertionError, ds)) \<and>
         (batch_size \<le> num_samples ds \<longrightarrow>
            (\<exists>b. fst (next_batch p batch_size ds) = Inr b)) \<and>
         (index_in_epoch ds \<le> num_samples ds \<longrightarrow>
            next_batch p 0 ds =
              (Inr (if labeled ds then Labeled [] [] else Unlabeled []),
               ds\<lparr>batch_number := batch_number ds + 1\<rparr>))"
proof (intro conjI impI)
  assume "batch_size > num_samples ds"
  then show "next_batch p batch_size ds = (Inl AssertionError, ds)"
    by (simp add: next_batch_def)
next
  assume "batch_size \<le> num_samples ds"
  then show "\<exists>b. fst (next_batch p batch_size ds) = Inr b"
    using assms by (rule next_batch_succeeds [rotated 2])
next
  assume "index_in_epoch ds \<le> num_samples ds"
  moreover have "0 \<le> num_samples ds" using assms(1) by (simp add: sampler_ok_def)
  ultimately have a: "index_in_epoch ds \<le> num_samples ds \<and> 0 \<le> num_samples ds" by simp
  show "next_batch p 0 ds =
          (Inr (if labeled ds then Labeled [] [] else Unlabeled []),
           ds\<lparr>batch_number := batch_number ds + 1\<rparr>)"
  proof (cases "labeled ds")
    case False
    then show ?thesis
      using a by (simp add: next_batch_def Let_def labels_slice_def return_batch_def py_slice_empty)
  next
    case True
    then obtain ls where "labels ds = Some ls"
      using assms(1) by (auto simp: sampler_ok_def split: option.splits)
    then show ?thesis
      using True a
      by (simp add: next_batch_def Let_def labels_slice_def return_batch_def py_slice_empty)
  qed
qed

theorem next_batch_rejects_only_oversize_witness:
  "sampler_ok (fresh False [0, 1, 2, 3]) \<and>
   next_batch [] 5 (fresh False [0, 1, 2, 3]) = (Inl AssertionError, fresh False [0, 1, 2, 3]) \<and>
   (\<exists>b. fst (next_batch [] (-1) (fresh False [0, 1, 2, 3])) = Inr b) \<and>
   (\<exists>b. fst (next_batch [] 4 (fresh False [0, 1, 2, 3])) = Inr b) \<and>
   next_batch [] 0 (fresh False [0, 1, 2, 3]) =
     (Inr (Unlabeled []), (fresh False [0, 1, 2, 3])\<lparr>batch_number := 1\<rparr>)"
proof -
  let ?ds = "fresh False [0, 1, 2, 3]"
  have h1: "sampler_ok ?ds" by (simp add: sampler_ok_def fresh_def)
  have h2: "shuffle ?ds \<longrightarrow> mset [] = mset [0..<length (data ?ds)]" by (simp add: fresh_def)
  have f: "num_samples ?ds = 4" "index_in_epoch ?ds = 0" "\<not> labeled ?ds" "batch_number ?ds = 0"
    by (simp_all add: fresh_def)
  show ?thesis
    using h1 next_batch_rejects_only_oversize [OF h1 h2, of 5]
      next_batch_rejects_only_oversize [OF h1 h2, of "-1"]
      next_batch_rejects_only_oversize [OF h1 h2, of 4]
    by (simp add: f)
qed

text \<open>
  Claim C3, as it is written, fails: on four unlabeled rows a call with
  \<open>batch_size = 0\<close> is not rejected but returns the empty batch.
\<close>

theorem next_batch_zero_counterexample:
  "init [] False False (rows_dict [0, 1, 2, 3]) = Inr (fresh False [0, 1, 2, 3]) \<and>
   next_batch [] 0 (fresh False [0, 1, 2, 3]) =
     (Inr (Unlabeled []), (fresh False [0, 1, 2, 3])\<lparr>batch_number := 1\<rparr>)"
  by (simp add: init_def rows_dict_def next_batch_def fresh_def labels_slice_def
                return_batch_def py_slice_def slice_bound_def)

subsection \<open>What a call leaves alone\<close>

lemma shuffle_data_frame:
  assumes "shuffle_data p ds = (r, ds')"
  shows "test_data ds' = test_data ds \<and> test_labels ds' = test_labels ds \<and>
         labeled ds' = labeled ds \<and> shuffle ds' = shuffle ds \<and>
         num_samples ds' = num_samples ds \<and> index_in_epoch ds' = index_in_epoch ds \<and>
         epochs_trained ds' = epochs_trained ds \<and> batch_number ds' = batch_number ds \<and>
         (r = Inr () \<longrightarrow> ds' = permuted p ds)"
  using assms
  by (auto simp: shuffle_data_def take_idx_def permuted_def Let_def
           split: sum.splits option.splits if_splits)

lemma wrap_shuffle_frame:
  assumes "(if shuffle ds then shuffle_data p ds else (Inr (), ds)) = (r, ds')"
  shows "test_data ds' = test_data ds \<and> test_labels ds' = test_labels ds \<and>
         labeled ds' = labeled ds \<and> shuffle ds' = shuffle ds \<and>
         num_samples ds' = num_samples ds \<and> index_in_epoch ds' = index_in_epoch ds \<and>
         epochs_trained ds' = epochs_trained ds \<and> batch_number ds' = batch_number ds \<and>
         ((\<exists>u. r = Inr u) \<longrightarrow> ds' = (if shuffle ds then permuted p ds else ds))"
proof (cases "shuffle ds")
  case True
  then show ?thesis using assms shuffle_data_frame [of p ds r ds'] by auto
next
  case False
  then show ?thesis using assms by auto
qed

text \<open>
  Claim C10. Every call of \<^verbatim>\<open>next_batch\<close>, failing or not, leaves the test matrix, the
  test labels, the two flags and the sample count as they were. After a call that
  returns a batch, putting the three counters back gives the data set of before the
  call, or, when the call wrapped with \<open>shuffle\<close> set, that data set with its rows and
  its labels reordered by the one index vector of the reshuffle: nothing else changed.
\<close>

theorem next_batch_frame:
  "test_data (snd (next_batch p batch_size ds)) = test_data ds \<and>
   test_labels (snd (next_batch p batch_size ds)) = test_labels ds \<and>
   labeled (snd (next_batch p batch_size ds)) = labeled ds \<and>
   shuffle (snd (next_batch p batch_size ds)) = shuffle ds \<and>
   num_samples (snd (next_batch p batch_size ds)) = num_samples ds \<and>
   (\<forall>b. fst (next_batch p batch_size ds) = Inr b \<longrightarrow>
      (snd (next_batch p batch_size ds))
         \<lparr>index_in_epoch := index_in_epoch ds, epochs_trained := epochs_trained ds,
          batch_number := batch_number ds\<rparr> =
      (if shuffle ds \<and> index_in_epoch ds + batch_size > num_samples ds
       then permuted p ds else ds))"
proof (cases "batch_size \<le> num_samples ds")
  case False
  then show ?thesis by (simp add: next_batch_def)
next
  case le: True
  show ?thesis
  proof (cases "index_in_epoch ds + batch_size > num_samples ds")
    case False
    then show ?thesis
      using le
      by (auto simp: next_batch_def Let_def return_batch_def split: sum.splits)
  next
    case True
    let ?self1 = "ds\<lparr>epochs_trained := epochs_trained ds + 1, batch_number := 0\<rparr>"
    obtain r self2 where sh:
      "(if shuffle ?self1 then shuffle_data p ?self1 else (Inr (), ?self1)) = (r, self2)"
      by (cases "if shuffle ?self1 then shuffle_data p ?self1 else (Inr (), ?self1)") 
    note fr = wrap_shuffle_frame [OF sh]
    have same: "test_data self2 = test_data ds" "test_labels self2 = test_labels ds"
      "labeled self2 = labeled ds" "shuffle self2 = shuffle ds"
      "num_samples self2 = num_samples ds"
      using fr by simp_all
    have perm: "self2 = (if shuffle ds then permuted p ds else ds)
                  \<lparr>epochs_trained := epochs_trained ds + 1, batch_number := 0\<rparr>"
      if "r = Inr u" for u
      using fr that by (cases "shuffle ds") auto
    show ?thesis
    proof (cases r)
      case (Inl e)
      then show ?thesis
        using le True sh same
        by (auto simp: next_batch_def Let_def split: sum.splits)
    next
      case (Inr u)
      show ?thesis
        using le True sh same perm [OF Inr] Inr
        by (auto simp: next_batch_def Let_def return_batch_def split: sum.splits)
    qed
  qed
qed

theorem next_batch_frame_witness:
  "fst (next_batch [1, 0, 2] 2 ((fresh True [5, 6, 7])\<lparr>index_in_epoch := 2\<rparr>)) =
     Inr (Unlabeled [7, 6]) \<and>
   (snd (next_batch [1, 0, 2] 2 ((fresh True [5, 6, 7])\<lparr>index_in_epoch := 2\<rparr>)))
     \<lparr>index_in_epoch := 2, epochs_trained := 0, batch_number := 0\<rparr> =
   (fresh True [6, 5, 7])\<lparr>index_in_epoch := 2\<rparr>"
proof -
  let ?ds = "(fresh True [5, 6, 7])\<lparr>index_in_epoch := 2\<rparr>"
  have r: "fst (next_batch [1, 0, 2] 2 ?ds) = Inr (Unlabeled [7, 6])"
    by (simp add: next_batch_def fresh_def labels_slice_def return_batch_def py_slice_def
                  slice_bound_def shuffle_data_def take_idx_def Let_def)
  have p: "permuted [1, 0, 2] ?ds = (fresh True [6, 5, 7])\<lparr>index_in_epoch := 2\<rparr>"
    by (simp add: permuted_def fresh_def)
  have f: "shuffle ?ds" "index_in_epoch ?ds = 2" "num_samples ?ds = 3"
    "epochs_trained ?ds = 0" "batch_number ?ds = 0"
    by (simp_all add: fresh_def)
  show ?thesis
    using next_batch_frame [of "[1, 0, 2]" 2 ?ds] r p by (simp add: f)
qed

subsection \<open>One epoch of calls\<close>

lemma window_append:
  "drop i (take (i + a) xs) @ take b (drop (i + a) xs) = take (a + b) (drop i xs)"
proof -
  have "drop i (take (i + a) xs) = take a (drop i xs)" by (simp add: drop_take)
  moreover have "take b (drop (i + a) xs) = take b (drop a (drop i xs))"
    by (simp add: add.commute)
  ultimately show ?thesis by (simp add: take_add)
qed

lemma next_batches_advance:
  assumes "sampler_ok ds" and "0 \<le> index_in_epoch ds" and "0 \<le> batch_size"
    and "index_in_epoch ds + int (length ps) * batch_size \<le> num_samples ds"
  shows "\<exists>rs. next_batches ps batch_size ds =
                (rs, ds\<lparr>index_in_epoch := index_in_epoch ds + int (length ps) * batch_size,
                        batch_number := batch_number ds + int (length ps)\<rparr>) \<and>
              length rs = length ps \<and> (\<forall>r \<in> set rs. \<exists>b. r = Inr b) \<and>
              rows_of rs =
                take (length ps * nat batch_size) (drop (nat (index_in_epoch ds)) (data ds)) \<and>
              (labeled ds \<longrightarrow> labels_of rs =
                take (length ps * nat batch_size)
                  (drop (nat (index_in_epoch ds)) (label_rows ds)))"
  using assms
proof (induction ps arbitrary: ds)
  case Nil
  then show ?case by (simp add: rows_of_def labels_of_def)
next
  case (Cons p ps)
  let ?i = "index_in_epoch ds"
  let ?ds1 = "ds\<lparr>index_in_epoch := ?i + batch_size, batch_number := batch_number ds + 1\<rparr>"
  have mono: "0 \<le> int (length ps) * batch_size" using Cons.prems(3) by simp
  have fit1: "?i + batch_size \<le> num_samples ds"
    using Cons.prems(4) mono by (simp add: algebra_simps)
  have step: "next_batch p batch_size ds =
           (Inr (if labeled ds
                 then Labeled (drop (nat ?i) (take (nat (?i + batch_size)) (data ds)))
                              (drop (nat ?i) (take (nat (?i + batch_size)) (label_rows ds)))
                 else Unlabeled (drop (nat ?i) (take (nat (?i + batch_size)) (data ds)))),
            ?ds1)"
    using next_batch_advance_eq [OF Cons.prems(1,2,3) fit1, of p] by (simp add: Let_def)
  have ok1: "sampler_ok ?ds1" using Cons.prems(1) by simp
  have i1: "0 \<le> index_in_epoch ?ds1" using Cons.prems(2,3) by simp
  have fit: "index_in_epoch ?ds1 + int (length ps) * batch_size \<le> num_samples ?ds1"
    using Cons.prems(4) by (simp add: algebra_simps)
  obtain rs where rs:
    "next_batches ps batch_size ?ds1 =
       (rs, ?ds1\<lparr>index_in_epoch := index_in_epoch ?ds1 + int (length ps) * batch_size,
                 batch_number := batch_number ?ds1 + int (length ps)\<rparr>)"
    "length rs = length ps" "\<forall>r \<in> set rs. \<exists>b. r = Inr b"
    "rows_of rs = take (length ps * nat batch_size)
                    (drop (nat (index_in_epoch ?ds1)) (data ?ds1))"
    "labeled ?ds1 \<longrightarrow> labels_of rs =
       take (length ps * nat batch_size) (drop (nat (index_in_epoch ?ds1)) (label_rows ?ds1))"
    using Cons.IH [OF ok1 i1 Cons.prems(3) fit] by blast
  have nat_sum: "nat (?i + batch_size) = nat ?i + nat batch_size"
    using Cons.prems(2,3) by (simp add: nat_add_distrib)
  have lr: "label_rows ?ds1 = label_rows ds" by (simp add: label_rows_def)
  let ?r = "Inr (if labeled ds
                 then Labeled (drop (nat ?i) (take (nat (?i + batch_size)) (data ds)))
                              (drop (nat ?i) (take (nat (?i + batch_size)) (label_rows ds)))
                 else Unlabeled (drop (nat ?i) (take (nat (?i + batch_size)) (data ds))))
             :: error + ('a, 'b) batch"
  have run: "next_batches (p # ps) batch_size ds =
               (?r # rs, ds\<lparr>index_in_epoch := ?i + int (length (p # ps)) * batch_size,
                           batch_number := batch_number ds + int (length (p # ps))\<rparr>)"
    using step rs(1) by (simp add: algebra_simps)
  have rows: "rows_of (?r # rs) =
                take (length (p # ps) * nat batch_size) (drop (nat ?i) (data ds))"
    using rs(4) window_append [of "nat ?i" "nat batch_size" "data ds" "length ps * nat batch_size"]
    by (simp add: rows_of_def nat_sum)
  have lbls: "labels_of (?r # rs) =
                take (length (p # ps) * nat batch_size) (drop (nat ?i) (label_rows ds))"
    if "labeled ds"
    using that rs(5) lr
      window_append [of "nat ?i" "nat batch_size" "label_rows ds" "length ps * nat batch_size"]
    by (simp add: labels_of_def nat_sum)
  show ?case
    using run rows lbls rs(2,3) by (intro exI [of _ "?r # rs"]) auto
qed

text \<open>
  Claim C2, as the code has it. The claim says that \<open>epochs_trained\<close> grows by one over
  the \<open>n_train / batch_size\<close> calls of an epoch; \<^verbatim>\<open>next_batch\<close> counts an epoch only when
  a call overruns (\<^verbatim>\<open>start + batch_size > self._num_samples\<close>), which none of these calls
  does. Amended: from a state with \<open>index_in_epoch = 0\<close> and \<open>shuffle\<close> off, for
  \<open>batch_size > 0\<close> dividing \<open>n_train\<close>, the \<open>n_train / batch_size\<close> calls all return a
  batch, the rows of the batches in call order are the training matrix (and the labels
  the label vector), each row once; \<open>epochs_trained\<close> is unchanged over these calls and
  \<open>index_in_epoch\<close> ends at \<open>n_train\<close>; when there are rows at all, it is the call after
  them that adds one to \<open>epochs_trained\<close>.
\<close>

theorem epoch_coverage:
  assumes ok: "sampler_ok ds" and nosh: "\<not> shuffle ds"
    and start: "index_in_epoch ds = 0"
    and bs: "0 < batch_size" "batch_size dvd num_samples ds"
    and calls: "int (length ps) = num_samples ds div batch_size"
  shows "\<exists>rs ds'. next_batches ps batch_size ds = (rs, ds') \<and>
           length rs = length ps \<and> (\<forall>r \<in> set rs. \<exists>b. r = Inr b) \<and>
           rows_of rs = data ds \<and>
           (labeled ds \<longrightarrow> labels_of rs = label_rows ds) \<and>
           data ds' = data ds \<and>
           epochs_trained ds' = epochs_trained ds \<and>
           index_in_epoch ds' = num_samples ds \<and>
           (0 < num_samples ds \<longrightarrow>
              epochs_trained (snd (next_batch p batch_size ds')) = epochs_trained ds + 1)"
proof -
  have n: "num_samples ds = int (length (data ds))"
    using ok by (simp add: sampler_ok_def)
  have total: "int (length ps) * batch_size = num_samples ds"
    using bs(2) calls by simp
  then have "int (length ps * nat batch_size) = int (length (data ds))"
    using bs(1) n by simp
  then have cover: "length ps * nat batch_size = length (data ds)"
    by (simp only: of_nat_eq_iff)
  let ?ds' = "ds\<lparr>index_in_epoch := index_in_epoch ds + int (length ps) * batch_size,
                 batch_number := batch_number ds + int (length ps)\<rparr>"
  obtain rs where rs:
    "next_batches ps batch_size ds = (rs, ?ds')"
    "length rs = length ps" "\<forall>r \<in> set rs. \<exists>b. r = Inr b"
    "rows_of rs = take (length ps * nat batch_size) (drop (nat (index_in_epoch ds)) (data ds))"
    "labeled ds \<longrightarrow> labels_of rs =
       take (length ps * nat batch_size) (drop (nat (index_in_epoch ds)) (label_rows ds))"
    using next_batches_advance [of ds batch_size ps] ok start bs(1) total by auto
  have rows: "rows_of rs = data ds" using rs(4) start cover by simp
  have lbls: "labels_of rs = label_rows ds" if "labeled ds"
  proof -
    have "length (label_rows ds) = length (data ds)"
      using that ok by (auto simp: sampler_ok_def label_rows_def split: option.splits)
    then show ?thesis using rs(5) that start cover by simp
  qed
  have ok': "sampler_ok ?ds'" using ok by simp
  have next_call: "epochs_trained (snd (next_batch p batch_size ?ds')) = epochs_trained ds + 1"
    if pos: "0 < num_samples ds"
  proof -
    have "1 \<le> int (length ps)" using total pos by (cases "length ps") auto
    then have "1 * batch_size \<le> int (length ps) * batch_size"
      using bs(1) by (intro mult_right_mono) auto
    then have le: "batch_size \<le> num_samples ?ds'" using total by simp
    have "next_batch p batch_size ?ds' =
          (let remaining = batch_size - (num_samples ?ds' - index_in_epoch ?ds');
               ds2 = (if shuffle ?ds' then permuted p ?ds' else ?ds')
           in (Inr (if labeled ?ds'
                    then Labeled (drop (nat (index_in_epoch ?ds')) (data ?ds') @
                                  take (nat remaining) (data ds2))
                                 (drop (nat (index_in_epoch ?ds')) (label_rows ?ds') @
                                  take (nat remaining) (label_rows ds2))
                    else Unlabeled (drop (nat (index_in_epoch ?ds')) (data ?ds') @
                                    take (nat remaining) (data ds2))),
               ds2\<lparr>epochs_trained := epochs_trained ?ds' + 1, batch_number := 1,
                    index_in_epoch := remaining\<rparr>))"
      using ok' nosh le start total bs(1) by (intro next_batch_wrap_eq) simp_all
    then show ?thesis using nosh by (simp add: Let_def)
  qed
  show ?thesis
    using rs(1,2,3) rows lbls next_call start total
    by (intro exI [of _ rs] exI [of _ ?ds']) simp
qed

theorem epoch_coverage_witness:
  "next_batches [[], []] 2 (fresh False [0, 1, 2, 3]) =
     ([Inr (Unlabeled [0, 1]), Inr (Unlabeled [2, 3])],
      (fresh False [0, 1, 2, 3])\<lparr>index_in_epoch := 4, batch_number := 2\<rparr>) \<and>
   rows_of [Inr (Unlabeled [0, 1]), Inr (Unlabeled [2, 3]) :: error + (int, int) batch] =
     [0, 1, 2, 3] \<and>
   epochs_trained (snd (next_batch [] 2
     ((fresh False [0, 1, 2, 3])\<lparr>index_in_epoch := 4, batch_number := 2\<rparr>))) = 1"
proof -
  let ?ds = "fresh False [0, 1, 2, 3]"
  have h: "sampler_ok ?ds" "\<not> shuffle ?ds" "index_in_epoch ?ds = 0"
    "(0::int) < 2" "2 dvd num_samples ?ds" "int (length [[], []]) = num_samples ?ds div 2"
    by (simp_all add: sampler_ok_def fresh_def)
  have run: "next_batches [[], []] 2 ?ds =
     ([Inr (Unlabeled [0, 1]), Inr (Unlabeled [2, 3])],
      ?ds\<lparr>index_in_epoch := 4, batch_number := 2\<rparr>)"
    by (simp add: next_batch_def fresh_def labels_slice_def return_batch_def py_slice_def
                  slice_bound_def)
  show ?thesis
    using epoch_coverage [OF h, of "[]"] run by (simp add: fresh_def)
qed

text \<open>
  Claim C2, as it is written, fails: on four rows with batches of two, the two calls of
  the epoch leave \<open>epochs_trained\<close> at its old value.
\<close>

theorem epoch_count_counterexample:
  "init [] False False (rows_dict [0, 1, 2, 3]) = Inr (fresh False [0, 1, 2, 3]) \<and>
   (2::int) dvd num_samples (fresh False [0, 1, 2, 3]) \<and>
   int (length [[], [] :: nat list]) = num_samples (fresh False [0, 1, 2, 3]) div 2 \<and>
   epochs_trained (snd (next_batches [[], []] 2 (fresh False [0, 1, 2, 3]))) \<noteq>
     epochs_trained (fresh False [0, 1, 2, 3]) + 1"
  by (simp add: init_def rows_dict_def next_batch_def fresh_def labels_slice_def
                return_batch_def py_slice_def slice_bound_def)

subsection \<open>Rows and labels stay paired\<close>

lemma map_nth_perm:
  assumes "mset p = mset [0..<length xs]"
  shows "mset (map (\<lambda>i. xs ! i) p) = mset xs"
proof -
  have "mset (map (\<lambda>i. xs ! i) p) = image_mset (\<lambda>i. xs ! i) (mset p)" by simp
  also have "\<dots> = mset (map (\<lambda>i. xs ! i) [0..<length xs])" using assms by simp
  also have "\<dots> = mset xs" by (simp add: map_nth)
  finally show ?thesis .
qed

lemma pairs_permuted:
  assumes ok: "sampler_ok ds" and lab: "labeled ds"
    and perm: "mset p = mset [0..<length (data ds)]"
  shows "pairs (permuted p ds) = map (\<lambda>i. pairs ds ! i) p"
proof -
  obtain ls where ls: "labels ds = Some ls" "length ls = length (data ds)"
    using ok lab by (auto simp: sampler_ok_def split: option.splits)
  have "set p = set [0..<length (data ds)]" using perm by (rule mset_eq_setD)
  then have in_range: "\<forall>i \<in> set p. i < length (data ds)" by simp
  have "zip (map (\<lambda>i. data ds ! i) p) (map (\<lambda>i. ls ! i) p) =
        map (\<lambda>i. zip (data ds) ls ! i) p"
    using in_range ls(2) by (induction p) simp_all
  then show ?thesis
    using lab ls by (simp add: pairs_def permuted_def label_rows_def)
qed

lemma pairs_counters [simp]:
  "pairs (ds\<lparr>epochs_trained := e\<rparr>) = pairs ds"
  "pairs (ds\<lparr>batch_number := b\<rparr>) = pairs ds"
  "pairs (ds\<lparr>index_in_epoch := i\<rparr>) = pairs ds"
  by (simp_all add: pairs_def label_rows_def)

lemma next_batch_snd:
  assumes ok: "sampler_ok ds"
    and perm: "shuffle ds \<longrightarrow> mset p = mset [0..<length (data ds)]"
  shows "snd (next_batch p batch_size ds) =
           (if batch_size > num_samples ds then ds
            else if index_in_epoch ds + batch_size > num_samples ds
            then (if shuffle ds then permuted p ds else ds)
                   \<lparr>epochs_trained := epochs_trained ds + 1, batch_number := 1,
                    index_in_epoch := batch_size - (num_samples ds - index_in_epoch ds)\<rparr>
            else ds\<lparr>index_in_epoch := index_in_epoch ds + batch_size,
                    batch_number := batch_number ds + 1\<rparr>)"
proof (cases "batch_size \<le> num_samples ds")
  case False
  then show ?thesis by (simp add: next_batch_def)
next
  case bs: True
  show ?thesis
  proof (cases "index_in_epoch ds + batch_size > num_samples ds")
    case False
    obtain l where "labels_slice ds (Some (index_in_epoch ds))
                      (Some (index_in_epoch ds + batch_size)) = Inr l"
      using labels_slice_ok [OF ok] by blast
    then show ?thesis
      using False bs by (simp add: next_batch_def Let_def return_batch_def)
  next
    case True
    let ?self1 = "ds\<lparr>epochs_trained := epochs_trained ds + 1, batch_number := 0\<rparr>"
    let ?self2 = "(if shuffle ds then permuted p ds else ds)
                    \<lparr>epochs_trained := epochs_trained ds + 1, batch_number := 0\<rparr>"
    have ok1: "sampler_ok ?self1" using ok by simp
    have ok2: "sampler_ok ?self2" using ok perm by (simp add: sampler_ok_permuted)
    obtain t where t: "labels_slice ?self1 (Some (index_in_epoch ds)) None = Inr t"
      using labels_slice_ok [OF ok1] by blast
    obtain h where h: "labels_slice ?self2 None
                         (Some (batch_size - (num_samples ds - index_in_epoch ds))) = Inr h"
      using labels_slice_ok [OF ok2] by blast
    have sh: "(if shuffle ?self1 then shuffle_data p ?self1 else (Inr (), ?self1)) =
              (Inr (), ?self2)"
      using ok perm by (simp add: shuffle_data_ok)
    show ?thesis
      using True bs t h sh by (simp add: next_batch_def Let_def return_batch_def)
  qed
qed

text \<open>
  Claim C4. On a labeled data set (one label for each row) \<^verbatim>\<open>_shuffle_data\<close> applies the
  one index vector, a permutation of \<open>[0, n_train)\<close>, to the rows and to the labels: the
  list of (row, label) pairs afterwards is the list of before, reordered by that index
  vector, so the pairs are the same multiset. The same holds for the state a call of
  \<^verbatim>\<open>next_batch\<close> leaves, which is reordered exactly when the call wraps with \<open>shuffle\<close>
  set, and for the data set the constructor builds from matching rows and labels, which
  is reordered exactly when its \<open>shuffle\<close> flag is set.
\<close>

theorem shuffle_keeps_pairing:
  "(sampler_ok ds \<and> labeled ds \<and> mset p = mset [0..<length (data ds)] \<longrightarrow>
      shuffle_data p ds = (Inr (), permuted p ds) \<and>
      pairs (permuted p ds) = map (\<lambda>i. pairs ds ! i) p \<and>
      mset (pairs (permuted p ds)) = mset (pairs ds) \<and>
      pairs (snd (next_batch p batch_size ds)) =
        (if shuffle ds \<and> batch_size \<le> num_samples ds \<and>
            index_in_epoch ds + batch_size > num_samples ds
         then map (\<lambda>i. pairs ds ! i) p else pairs ds) \<and>
      mset (pairs (snd (next_batch p batch_size ds))) = mset (pairs ds)) \<and>
   (dd_data dd = Some d \<and> dd_labels dd = Some ls \<and> length d = length ls \<and>
    dd_labeled dd \<noteq> Some False \<and> mset q = mset [0..<length d] \<longrightarrow>
      (\<exists>ds'. init q shuffle_arg True dd = Inr ds' \<and>
         pairs ds' =
           (if (case dd_shuffle dd of Some b \<Rightarrow> b | None \<Rightarrow> shuffle_arg)
            then map (\<lambda>i. zip d ls ! i) q else zip d ls) \<and>
         mset (pairs ds') = mset (zip d ls)))"
proof (intro conjI impI)
  assume a: "sampler_ok ds \<and> labeled ds \<and> mset p = mset [0..<length (data ds)]"
  then have ok: "sampler_ok ds" and lab: "labeled ds"
    and perm: "mset p = mset [0..<length (data ds)]" by simp_all
  show sd: "shuffle_data p ds = (Inr (), permuted p ds)"
    using ok perm by (rule shuffle_data_ok)
  show pp: "pairs (permuted p ds) = map (\<lambda>i. pairs ds ! i) p"
    using ok lab perm by (rule pairs_permuted)
  have len: "length (pairs ds) = length (data ds)"
    using ok lab by (auto simp: pairs_def sampler_ok_def label_rows_def split: option.splits)
  have "mset p = mset [0..<length (pairs ds)]"
    using perm by (simp only: len)
  then have "mset (map (\<lambda>i. pairs ds ! i) p) = mset (pairs ds)"
    by (rule map_nth_perm)
  then show mp: "mset (pairs (permuted p ds)) = mset (pairs ds)"
    by (simp only: pp)
  show np: "pairs (snd (next_batch p batch_size ds)) =
        (if shuffle ds \<and> batch_size \<le> num_samples ds \<and>
            index_in_epoch ds + batch_size > num_samples ds
         then map (\<lambda>i. pairs ds ! i) p else pairs ds)"
    using next_batch_snd [of ds p batch_size] ok perm pp by simp
  show "mset (pairs (snd (next_batch p batch_size ds))) = mset (pairs ds)"
    using np mp pp by simp
next
  assume b: "dd_data dd = Some d \<and> dd_labels dd = Some ls \<and> length d = length ls \<and>
    dd_labeled dd \<noteq> Some False \<and> mset q = mset [0..<length d]"
  define sh where "sh = (case dd_shuffle dd of Some b \<Rightarrow> b | None \<Rightarrow> shuffle_arg)"
  let ?self = "\<lparr> labeled = True, shuffle = sh, data = d, labels = dd_labels dd,
                  test_data = dd_test_data dd, test_labels = dd_test_labels dd,
                  colnames = dd_colnames dd, markers = dd_markers dd,
                  max_attr = dd_max dd, min_attr = dd_min dd,
                  components = dd_components dd, mean_offset = dd_mean_offset dd,
                  num_samples = int (length d), index_in_epoch = 0, epochs_trained = 0,
                  batch_number = 0 \<rparr>"
  have lab: "(case dd_labeled dd of Some b \<Rightarrow> b | None \<Rightarrow> True) = True"
    using b by (cases "dd_labeled dd") auto
  have ok: "sampler_ok ?self" using b by (simp add: sampler_ok_def)
  have perm: "mset q = mset [0..<length (data ?self)]" using b by simp
  have pz: "pairs ?self = zip d ls" using b by (simp add: pairs_def label_rows_def)
  have e: "init q shuffle_arg True dd =
          (if shuffle ?self then
             (case shuffle_data q ?self of (Inl e, _) \<Rightarrow> Inl e | (Inr _, self') \<Rightarrow> Inr self')
           else Inr ?self)"
    using b lab by (simp add: init_def Let_def sh_def)
  have i: "init q shuffle_arg True dd = Inr (if sh then permuted q ?self else ?self)"
  proof (cases sh)
    case True
    with e shuffle_data_ok [OF ok perm] show ?thesis by simp
  next
    case False
    with e show ?thesis by simp
  qed
  have pp: "pairs (permuted q ?self) = map (\<lambda>i. zip d ls ! i) q"
    using pairs_permuted [OF ok _ perm] pz by simp
  have lz: "length (zip d ls) = length d" using b by simp
  have "mset q = mset [0..<length (zip d ls)]"
    using b by (simp only: lz)
  then have mp: "mset (map (\<lambda>i. zip d ls ! i) q) = mset (zip d ls)"
    by (rule map_nth_perm)
  show "\<exists>ds'. init q shuffle_arg True dd = Inr ds' \<and>
         pairs ds' = (if (case dd_shuffle dd of Some b \<Rightarrow> b | None \<Rightarrow> shuffle_arg)
                      then map (\<lambda>i. zip d ls ! i) q else zip d ls) \<and>
         mset (pairs ds') = mset (zip d ls)"
    unfolding sh_def [symmetric] using i pp pz mp by (cases sh) simp_all
qed


theorem shuffle_keeps_pairing_witness:
  "shuffle_data [2, 0, 1] (fresh_labeled True [10, 20, 30] [1, 2, 3]) =
     (Inr (), fresh_labeled True [30, 10, 20] [3, 1, 2]) \<and>
   pairs (fresh_labeled True [30, 10, 20] [3, 1, 2]) = [(30, 3), (10, 1), (20, 2)] \<and>
   pairs (snd (next_batch [2, 0, 1] 2
     ((fresh_labeled True [10, 20, 30] [1, 2, 3])\<lparr>index_in_epoch := 2\<rparr>))) =
     [(30, 3), (10, 1), (20, 2)] \<and>
   (\<exists>ds'. init [2, 0, 1] True True (labeled_dict [10, 20, 30] [1, 2, 3]) = Inr ds' \<and>
      pairs ds' = [(30, 3), (10, 1), (20, 2)])"
proof -
  let ?ds = "fresh_labeled True [10, 20, 30] [1, 2, 3]"
  let ?di = "?ds\<lparr>index_in_epoch := 2\<rparr>"
  let ?dd = "labeled_dict [10, 20, 30] [1, 2, 3]"
  have p3: "mset [2, 0, 1] = mset [0..<3]" by code_simp
  have l: "length (data ?ds) = 3" "length (data ?di) = 3" "length [10, 20, 30 :: int] = 3"
    by (simp_all add: fresh_labeled_def fresh_def)
  have h1: "sampler_ok ?ds \<and> labeled ?ds \<and> mset [2, 0, 1] = mset [0..<length (data ?ds)]"
    unfolding l using p3 by (simp add: sampler_ok_def fresh_labeled_def fresh_def)
  have h2: "sampler_ok ?di \<and> labeled ?di \<and> mset [2, 0, 1] = mset [0..<length (data ?di)]"
    unfolding l using p3 by (simp add: sampler_ok_def fresh_labeled_def fresh_def)
  have h3: "dd_data ?dd = Some [10, 20, 30] \<and> dd_labels ?dd = Some [1, 2, 3] \<and>
            length [10, 20, 30 :: int] = length [1, 2, 3 :: int] \<and>
            dd_labeled ?dd \<noteq> Some False \<and> mset [2, 0, 1] = mset [0..<length [10, 20, 30 :: int]]"
    unfolding l using p3 by (simp add: labeled_dict_def rows_dict_def)
  have pm: "permuted [2, 0, 1] ?ds = fresh_labeled True [30, 10, 20] [3, 1, 2]"
    by (simp add: permuted_def fresh_labeled_def fresh_def)
  have pr: "pairs ?di = [(10, 1), (20, 2), (30, 3)]" "pairs ?ds = [(10, 1), (20, 2), (30, 3)]"
    by (simp_all add: pairs_def label_rows_def fresh_labeled_def fresh_def)
  have f: "shuffle ?di" "num_samples ?di = 3" "index_in_epoch ?di = 2"
    "dd_shuffle ?dd = None"
    by (simp_all add: fresh_labeled_def fresh_def labeled_dict_def rows_dict_def)
  note t1 = shuffle_keeps_pairing
    [of ?ds "[2, 0, 1]" 2 ?dd "[10, 20, 30]" "[1, 2, 3]" "[2, 0, 1]" True]
  note t2 = shuffle_keeps_pairing
    [of ?di "[2, 0, 1]" 2 ?dd "[10, 20, 30]" "[1, 2, 3]" "[2, 0, 1]" True]
  note s1 = t1 [THEN conjunct1, THEN mp, OF h1]
  note s2 = t2 [THEN conjunct1, THEN mp, OF h2]
  note s3 = t1 [THEN conjunct2, THEN mp, OF h3]
  have a: "shuffle_data [2, 0, 1] ?ds = (Inr (), fresh_labeled True [30, 10, 20] [3, 1, 2])"
    using s1 [THEN conjunct1] pm by simp
  have a': "pairs (fresh_labeled True [30, 10, 20] [3, 1, 2]) = [(30, 3), (10, 1), (20, 2)]"
    by (simp add: pairs_def label_rows_def fresh_labeled_def fresh_def)
  have b: "pairs (snd (next_batch [2, 0, 1] 2 ?di)) = [(30, 3), (10, 1), (20, 2)]"
    using s2 [THEN conjunct2, THEN conjunct2, THEN conjunct2, THEN conjunct1] pr f by simp
  have z: "map (\<lambda>i. zip [10, 20, 30 :: int] [1, 2, 3 :: int] ! i) [2, 0, 1] =
           [(30, 3), (10, 1), (20, 2)]" by simp
  obtain ds' where c: "init [2, 0, 1] True True ?dd = Inr ds'"
    "pairs ds' = (if (case dd_shuffle ?dd of Some b \<Rightarrow> b | None \<Rightarrow> True)
                  then map (\<lambda>i. zip [10, 20, 30] [1, 2, 3] ! i) [2, 0, 1]
                  else zip [10, 20, 30] [1, 2, 3])"
    using s3 by blast
  have c': "pairs ds' = [(30, 3), (10, 1), (20, 2)]"
    using c(2) f(4) z by simp
  show ?thesis using a a' b c(1) c' by simp
qed

subsection \<open>The inverse transform returns its argument\<close>

text \<open>
  Claim C9 says that \<^verbatim>\<open>rnaseq_inverse_transform\<close> returns the reconstruction
  \<open>x \<cdot> components + mean_offset\<close>. For a data set with \<open>components\<close> and \<open>mean_offset\<close> and
  without both of \<open>min\<close> and \<open>max\<close>, called without \<open>x\<close>, the function does compute that
  matrix from the training rows followed by the test rows, in its local variable, but
  what it returns is the data set it was given.
\<close>

theorem inverse_transform_returns_data_set:
  assumes "test_data ds = Some t" and "components ds = Some c" and "mean_offset ds = Some m"
    and "min_attr ds = None \<or> max_attr ds = None"
  shows "inverse_transform_x np ds None = Inr (np_add np (np_dot np (data ds @ t) c) m) \<and>
         rnaseq_inverse_transform np ds None = Inr ds"
proof -
  have "(case (min_attr ds, max_attr ds) of
           (Some mn, Some mx) \<Rightarrow> np_add np (np_mul np (data ds @ t) (np_sub np mx mn)) mn
         | _ \<Rightarrow> data ds @ t) = data ds @ t"
    using assms(4) by (auto split: option.splits)
  then have "inverse_transform_x np ds None = Inr (np_add np (np_dot np (data ds @ t) c) m)"
    using assms(1,2,3) by (simp add: inverse_transform_x_def Let_def)
  then show ?thesis by (simp add: rnaseq_inverse_transform_def)
qed

theorem inverse_transform_returns_data_set_witness:
  "inverse_transform_x toy_numpy family_b None = Inr [[11, 22, 33], [13, 24, 37]] \<and>
   rnaseq_inverse_transform toy_numpy family_b None = Inr family_b"
proof -
  have h: "test_data family_b = Some [[3, 4]]" "components family_b = Some [[1, 0, 1], [0, 1, 1]]"
    "mean_offset family_b = Some [10, 20, 30]"
    "min_attr family_b = None \<or> max_attr family_b = None"
    by (simp_all add: family_b_def)
  have v: "np_add toy_numpy (np_dot toy_numpy (data family_b @ [[3, 4]]) [[1, 0, 1], [0, 1, 1]])
             [10, 20, 30] = [[11, 22, 33], [13, 24, 37]]"
    by (simp add: toy_numpy_def family_b_def numeral_3_eq_3)
  show ?thesis
    using inverse_transform_returns_data_set [OF h, of toy_numpy] v by simp
qed

subsection \<open>Saving and loading\<close>

lemma load_save_init:
  assumes ok: "sampler_ok ds" and plain: "markers ds \<noteq> Some NoneValue"
  shows "load p (save ds) =
           (if shuffle ds then
              (case shuffle_data p
                      (ds\<lparr>index_in_epoch := 0, epochs_trained := 0, batch_number := 0\<rparr>) of
                 (Inl e, _) \<Rightarrow> Inl e
               | (Inr _, self') \<Rightarrow> Inr self')
            else Inr (ds\<lparr>index_in_epoch := 0, epochs_trained := 0, batch_number := 0\<rparr>))"
proof -
  have n: "num_samples ds = int (length (data ds))"
    using ok by (simp add: sampler_ok_def)
  have rec: "\<lparr> labeled = labeled ds, shuffle = shuffle ds, data = data ds,
               labels = labels ds, test_data = test_data ds, test_labels = test_labels ds,
               colnames = colnames ds, markers = markers ds, max_attr = max_attr ds,
               min_attr = min_attr ds, components = components ds,
               mean_offset = mean_offset ds, num_samples = int (length (data ds)),
               index_in_epoch = 0, epochs_trained = 0, batch_number = 0 \<rparr> =
             ds\<lparr>index_in_epoch := 0, epochs_trained := 0, batch_number := 0\<rparr>"
    using n by (cases ds) simp
  show ?thesis
  proof (cases "labeled ds")
    case lab: False
    show ?thesis
    proof (cases "shuffle ds")
      case True
      with lab rec plain show ?thesis by (simp add: load_def save_def init_def pickled_def Let_def)
    next
      case False
      with lab rec plain show ?thesis by (simp add: load_def save_def init_def pickled_def Let_def)
    qed
  next
    case lab: True
    then obtain ls where ls: "labels ds = Some ls" "length ls = length (data ds)"
      using ok by (auto simp: sampler_ok_def split: option.splits)
    show ?thesis
    proof (cases "shuffle ds")
      case True
      with lab ls rec plain show ?thesis by (simp add: load_def save_def init_def pickled_def Let_def)
    next
      case False
      with lab ls rec plain show ?thesis by (simp add: load_def save_def init_def pickled_def Let_def)
    qed
  qed
qed

text \<open>
  Claim C5, as the code has it. The claim says that the loaded training matrix has its
  rows in the order of the saved one; \<^verbatim>\<open>load\<close> goes through the constructor, which takes
  the \<open>shuffle\<close> flag from the archive and reshuffles when it is set. Amended: for a
  data set none of whose attributes holds \<^verbatim>\<open>None\<close>, loading what \<^verbatim>\<open>save\<close> wrote gives a
  data set with the same test matrix, test labels and normalization parameters (\<open>max\<close>,
  \<open>min\<close>, \<open>components\<close>, \<open>mean_offset\<close>), the three counters at zero, and the training
  rows and labels of the saved data set reordered by the one index vector of the
  constructor's shuffle when the flag is set: the same rows, and the same (row, label)
  pairs, as multisets. With the flag off the training matrix and labels are equal, in
  the same order. A data set whose \<^verbatim>\<open>_markers\<close> holds \<^verbatim>\<open>None\<close> is saved, but loading its
  archive raises \<^verbatim>\<open>ValueError\<close>.
\<close>

theorem load_save_round_trip:
  assumes "sampler_ok ds"
    and "shuffle ds \<longrightarrow> mset p = mset [0..<length (data ds)]"
  shows "(markers ds = Some NoneValue \<longrightarrow> load p (save ds) = Inl ValueError) \<and>
         (markers ds \<noteq> Some NoneValue \<longrightarrow>
          (\<exists>ds'. load p (save ds) = Inr ds' \<and>
           ds' = (if shuffle ds then permuted p ds else ds)
                   \<lparr>index_in_epoch := 0, epochs_trained := 0, batch_number := 0\<rparr> \<and>
           test_data ds' = test_data ds \<and> test_labels ds' = test_labels ds \<and>
           max_attr ds' = max_attr ds \<and> min_attr ds' = min_attr ds \<and>
           components ds' = components ds \<and> mean_offset ds' = mean_offset ds \<and>
           mset (data ds') = mset (data ds) \<and>
           (labeled ds \<longrightarrow> mset (pairs ds') = mset (pairs ds)) \<and>
           (\<not> shuffle ds \<longrightarrow> data ds' = data ds \<and> labels ds' = labels ds)))"
proof (intro conjI impI)
  assume "markers ds = Some NoneValue"
  then show "load p (save ds) = Inl ValueError"
    by (simp add: load_def save_def pickled_def)
next
  assume plain: "markers ds \<noteq> Some NoneValue"
  show "\<exists>ds'. load p (save ds) = Inr ds' \<and>
           ds' = (if shuffle ds then permuted p ds else ds)
                   \<lparr>index_in_epoch := 0, epochs_trained := 0, batch_number := 0\<rparr> \<and>
           test_data ds' = test_data ds \<and> test_labels ds' = test_labels ds \<and>
           max_attr ds' = max_attr ds \<and> min_attr ds' = min_attr ds \<and>
           components ds' = components ds \<and> mean_offset ds' = mean_offset ds \<and>
           mset (data ds') = mset (data ds) \<and>
           (labeled ds \<longrightarrow> mset (pairs ds') = mset (pairs ds)) \<and>
           (\<not> shuffle ds \<longrightarrow> data ds' = data ds \<and> labels ds' = labels ds)"
  proof (cases "shuffle ds")
  case False
  then show ?thesis
    using load_save_init [OF assms(1) plain, of p] by (simp add: pairs_def label_rows_def)
next
  case True
  let ?ds0 = "ds\<lparr>index_in_epoch := 0, epochs_trained := 0, batch_number := 0\<rparr>"
  have perm: "mset p = mset [0..<length (data ds)]" using True assms(2) by simp
  have "shuffle_data p ?ds0 = (Inr (), permuted p ?ds0)"
    using assms(1) perm by (intro shuffle_data_ok) simp_all
  then have l: "load p (save ds) =
        Inr ((permuted p ds)\<lparr>index_in_epoch := 0, epochs_trained := 0, batch_number := 0\<rparr>)"
    using load_save_init [OF assms(1) plain, of p] True by simp
  have rows: "mset (map (\<lambda>i. data ds ! i) p) = mset (data ds)"
    using perm by (rule map_nth_perm)
  have prs: "mset (pairs (permuted p ds)) = mset (pairs ds)" if lab: "labeled ds"
  proof -
    have len: "length (pairs ds) = length (data ds)"
      using assms(1) lab
      by (auto simp: pairs_def sampler_ok_def label_rows_def split: option.splits)
    have "mset p = mset [0..<length (pairs ds)]" using perm by (simp only: len)
    then have "mset (map (\<lambda>i. pairs ds ! i) p) = mset (pairs ds)" by (rule map_nth_perm)
    then show ?thesis using pairs_permuted [OF assms(1) lab perm] by simp
  qed
  have other: "test_data (permuted p ds) = test_data ds"
    "test_labels (permuted p ds) = test_labels ds"
    "max_attr (permuted p ds) = max_attr ds" "min_attr (permuted p ds) = min_attr ds"
    "components (permuted p ds) = components ds"
    "mean_offset (permuted p ds) = mean_offset ds"
    by (simp_all add: permuted_def)
  show ?thesis
    using l True rows prs other by simp
qed
qed

theorem load_save_round_trip_witness:
  "load [1, 0] (save (fresh True [0, 1])) = Inr (fresh True [1, 0]) \<and>
   load [] (save ((fresh False [0, 1])\<lparr>index_in_epoch := 1\<rparr>)) = Inr (fresh False [0, 1]) \<and>
   load [] (save ((fresh False [0, 1])\<lparr>markers := Some NoneValue\<rparr>)) = Inl ValueError"
proof -
  let ?a = "fresh True [0, 1]"
  let ?b = "(fresh False [0, 1])\<lparr>index_in_epoch := 1\<rparr>"
  let ?c = "(fresh False [0, 1])\<lparr>markers := Some NoneValue\<rparr>"
  have p2: "mset [1, 0] = mset [0..<2]" by code_simp
  have la: "length (data ?a) = 2" by (simp add: fresh_def)
  have ha: "sampler_ok ?a" by (simp add: sampler_ok_def fresh_def)
  have pa: "shuffle ?a \<longrightarrow> mset [1, 0] = mset [0..<length (data ?a)]"
    unfolding la using p2 by simp
  have ma: "markers ?a \<noteq> Some NoneValue" by (simp add: fresh_def)
  have hb: "sampler_ok ?b" by (simp add: sampler_ok_def fresh_def)
  have pb: "shuffle ?b \<longrightarrow> mset [] = mset [0..<length (data ?b)]"
    by (simp add: fresh_def)
  have mb: "markers ?b \<noteq> Some NoneValue" by (simp add: fresh_def)
  have hc: "sampler_ok ?c" by (simp add: sampler_ok_def fresh_def)
  have pc: "shuffle ?c \<longrightarrow> mset [] = mset [0..<length (data ?c)]"
    by (simp add: fresh_def)
  have mc: "markers ?c = Some NoneValue" by simp
  obtain a' where a: "load [1, 0] (save ?a) = Inr a'"
    "a' = (if shuffle ?a then permuted [1, 0] ?a else ?a)
            \<lparr>index_in_epoch := 0, epochs_trained := 0, batch_number := 0\<rparr>"
    using load_save_round_trip [OF ha pa, THEN conjunct2, THEN mp, OF ma] by blast
  obtain b' where b: "load [] (save ?b) = Inr b'"
    "b' = (if shuffle ?b then permuted [] ?b else ?b)
            \<lparr>index_in_epoch := 0, epochs_trained := 0, batch_number := 0\<rparr>"
    using load_save_round_trip [OF hb pb, THEN conjunct2, THEN mp, OF mb] by blast
  have c: "load [] (save ?c) = Inl ValueError"
    using load_save_round_trip [OF hc pc, THEN conjunct1, THEN mp, OF mc] .
  have "a' = fresh True [1, 0]" using a(2) by (simp add: permuted_def fresh_def)
  moreover have "b' = fresh False [0, 1]" using b(2) by (simp add: fresh_def)
  ultimately show ?thesis using a(1) b(1) c by simp
qed

text \<open>
  Claim C5, as it is written, fails: a two-row data set built with \<open>shuffle\<close> on, saved
  and loaded with the shuffle drawing the order \<open>[1, 0]\<close>, comes back with its rows
  swapped.
\<close>

theorem load_save_order_counterexample:
  "init [0, 1] True False (rows_dict [0, 1]) = Inr (fresh True [0, 1]) \<and>
   load [1, 0] (save (fresh True [0, 1])) = Inr (fresh True [1, 0]) \<and>
   data (fresh True [1, 0]) \<noteq> data (fresh True [0, 1])"
  by (simp add: load_def save_def init_def pickled_def rows_dict_def fresh_def shuffle_data_def
                take_idx_def Let_def)

subsection \<open>The normalization of the bounded-count data sets\<close>





subsection \<open>The mutual-information estimator\<close>








end
